theory Spec2Isabelle
  imports Main "HOL-Library.Word"
begin

section \<open>The circuit breaker of circuitbreaker.go\<close>

text \<open>
  The Go package keeps one struct per protected dependency and exposes one method,
  \<open>Call\<close>, which holds the struct's mutex from its first statement to its return.
  Calls on one breaker are therefore serialised, and the model is sequential: every
  method takes the struct and returns the updated struct beside its Go return values.
\<close>

subsection \<open>Data\<close>

text \<open>
  \<open>circuitBreakerState\<close> is an alias of Go's \<open>string\<close>, so a state outside the three
  constants is a value of the type. Go's \<open>int\<close> is taken at its 64-bit width:
  \<open>++\<close> wraps and \<open>>=\<close> compares the signed readings. A \<open>time.Duration\<close> is a
  signed 64-bit count of nanoseconds. A \<open>time.Time\<close> is an instant, counted here in
  nanoseconds from the zero \<open>time.Time\<close>.
\<close>

type_synonym circuitBreakerState = string
type_synonym go_int = "64 word"
type_synonym Duration = "64 word"
type_synonym Time = int

definition closed :: circuitBreakerState where
  "closed = ''closed''"

definition "open" :: circuitBreakerState where
  "open = ''open''"

definition halfOpen :: circuitBreakerState where
  "halfOpen = ''half-open''"

text \<open>A Go \<open>error\<close> made by \<open>errors.New\<close>; a nil error is \<open>None\<close>.\<close>

datatype error = errors_New string

record CircuitBreaker =
  state :: circuitBreakerState
  failureCount :: go_int
  lastFailureTime :: Time
  successCount :: go_int
  failureThreshold :: go_int
  recoveryTime :: Duration
  halfOpenThreshold :: go_int
  timeout :: Duration

text \<open>
  An \<open>operation\<close> is a \<open>func() (any, error)\<close>. What one invocation of it does is
  given by the pair it returns (a nil \<open>any\<close> is \<open>None\<close>) and by the time it takes to
  return, in nanoseconds; \<open>None\<close> is an invocation that never returns.
\<close>

record 'a operation =
  op_res :: "'a option"
  op_err :: "error option"
  op_latency :: "nat option"

text \<open>
  What a call reads from outside the struct: the clock (every path through \<open>Call\<close>
  reads it at most once), and the choice Go's \<open>select\<close> makes when the result and
  the deadline are ready at the same instant.
\<close>

record env =
  now :: Time
  op_first :: bool

text \<open>
  The Go return values \<open>(any, error)\<close> of a call, and beside them whether the call
  started the operation (the \<open>go func() { fn() }\<close> statement was executed).
\<close>

record 'a reply =
  invoked :: bool
  result :: "'a option"
  err :: "error option"

subsection \<open>The clock\<close>

text \<open>
  \<open>time.Since(t)\<close> is \<open>time.Now().Sub(t)\<close>; \<open>Sub\<close> returns the largest or the
  smallest \<open>Duration\<close> when the difference does not fit.
\<close>

definition maxDuration :: int where
  "maxDuration = 2 ^ 63 - 1"

definition minDuration :: int where
  "minDuration = - (2 ^ 63)"

definition time_Sub :: "Time \<Rightarrow> Time \<Rightarrow> Duration" where
  "time_Sub t u =
     (if t - u > maxDuration then word_of_int maxDuration
      else if t - u < minDuration then word_of_int minDuration
      else word_of_int (t - u))"

definition time_Since :: "env \<Rightarrow> Time \<Rightarrow> Duration" where
  "time_Since e t = time_Sub (now e) t"

subsection \<open>Construction\<close>

definition NewCircuitBreaker :: "go_int \<Rightarrow> go_int \<Rightarrow> Duration \<Rightarrow> Duration \<Rightarrow> CircuitBreaker" where
  "NewCircuitBreaker fThreshold hThreshold rTime tOut =
     \<lparr> state = closed,
       failureCount = 0,
       lastFailureTime = 0,
       successCount = 0,
       failureThreshold = fThreshold,
       recoveryTime = rTime,
       halfOpenThreshold = hThreshold,
       timeout = tOut \<rparr>"

subsection \<open>The timeout executor\<close>

text \<open>
  \<open>runWithTimeout\<close> starts the operation on a goroutine and selects between the
  context's deadline and the result channel. \<open>completes\<close> says that the result
  channel is the case the \<open>select\<close> takes: the operation returns before the deadline,
  or at the deadline with the \<open>select\<close> choosing the result.
\<close>

definition completes :: "CircuitBreaker \<Rightarrow> env \<Rightarrow> 'a operation \<Rightarrow> bool" where
  "completes cb e fn =
     (case op_latency fn of
        None \<Rightarrow> False
      | Some d \<Rightarrow> int d < sint (timeout cb) \<or> (int d = sint (timeout cb) \<and> op_first e))"

definition runWithTimeout :: "CircuitBreaker \<Rightarrow> env \<Rightarrow> 'a operation \<Rightarrow> 'a reply" where
  "runWithTimeout cb e fn =
     (if completes cb e fn
      then \<lparr> invoked = True, result = op_res fn, err = op_err fn \<rparr>
      else \<lparr> invoked = True, result = None, err = Some (errors_New ''request timed out'') \<rparr>)"

subsection \<open>The state handlers\<close>

definition processClosedState ::
  "CircuitBreaker \<Rightarrow> env \<Rightarrow> 'a operation \<Rightarrow> CircuitBreaker \<times> 'a reply" where
  "processClosedState cb e fn =
     (let r = runWithTimeout cb e fn in
      if err r \<noteq> None then
        let cb1 = cb\<lparr> failureCount := failureCount cb + 1 \<rparr>;
            cb2 = cb1\<lparr> lastFailureTime := now e \<rparr>;
            cb3 = (if sint (failureCount cb2) \<ge> sint (failureThreshold cb2)
                   then cb2\<lparr> state := open \<rparr> else cb2)
        in (cb3, \<lparr> invoked = invoked r, result = None, err = err r \<rparr>)
      else (cb, \<lparr> invoked = invoked r, result = result r, err = None \<rparr>))"

definition resetCircuit :: "CircuitBreaker \<Rightarrow> CircuitBreaker" where
  "resetCircuit cb = (cb\<lparr> failureCount := 0 \<rparr>)\<lparr> state := closed \<rparr>"

definition processOpenState :: "CircuitBreaker \<Rightarrow> env \<Rightarrow> CircuitBreaker \<times> 'a reply" where
  "processOpenState cb e =
     (if sint (time_Since e (lastFailureTime cb)) > sint (recoveryTime cb) then
        let cb1 = cb\<lparr> state := halfOpen \<rparr>;
            cb2 = cb1\<lparr> halfOpenThreshold := 0 \<rparr>;
            cb3 = cb2\<lparr> failureCount := 0 \<rparr>
        in (cb3, \<lparr> invoked = False, result = None, err = None \<rparr>)
      else
        (cb, \<lparr> invoked = False, result = None,
               err = Some (errors_New ''open state; request blocked'') \<rparr>))"

definition processHalfOpenState ::
  "CircuitBreaker \<Rightarrow> env \<Rightarrow> 'a operation \<Rightarrow> CircuitBreaker \<times> 'a reply" where
  "processHalfOpenState cb e fn =
     (let r = runWithTimeout cb e fn in
      if err r \<noteq> None then
        let cb1 = cb\<lparr> state := open \<rparr>;
            cb2 = cb1\<lparr> lastFailureTime := now e \<rparr>
        in (cb2, \<lparr> invoked = invoked r, result = None, err = err r \<rparr>)
      else
        let cb1 = cb\<lparr> successCount := successCount cb + 1 \<rparr>;
            cb2 = (if sint (successCount cb1) \<ge> sint (halfOpenThreshold cb1)
                   then resetCircuit cb1 else cb1)
        in (cb2, \<lparr> invoked = invoked r, result = result r, err = None \<rparr>))"

subsection \<open>Call\<close>

definition Call :: "CircuitBreaker \<Rightarrow> env \<Rightarrow> 'a operation \<Rightarrow> CircuitBreaker \<times> 'a reply" where
  "Call cb e fn =
     (if state cb = closed then processClosedState cb e fn
      else if state cb = open then processOpenState cb e
      else if state cb = halfOpen then processHalfOpenState cb e fn
      else (cb, \<lparr> invoked = False, result = None,
                  err = Some (errors_New (''unknown state `'' @ state cb @ ''`'')) \<rparr>))"

text \<open>A caller making one call after the other on the same breaker.\<close>

fun calls :: "CircuitBreaker \<Rightarrow> (env \<times> 'a operation) list \<Rightarrow> CircuitBreaker" where
  "calls cb [] = cb"
| "calls cb ((e, fn) # cs) = calls (fst (Call cb e fn)) cs"

subsection \<open>Vocabulary of the properties\<close>

text \<open>
  A call fails when the timeout executor returns a non-nil error: the operation did not
  complete before the deadline, or it completed and returned an error.
\<close>

definition failed :: "CircuitBreaker \<Rightarrow> env \<Rightarrow> 'a operation \<Rightarrow> bool" where
  "failed cb e fn = (\<not> completes cb e fn \<or> op_err fn \<noteq> None)"

text \<open>The number of failing calls in a sequence of calls.\<close>

definition failures :: "CircuitBreaker \<Rightarrow> (env \<times> 'a operation) list \<Rightarrow> nat" where
  "failures cb cs = length (filter (\<lambda>(e, fn). failed cb e fn) cs)"

text \<open>The operation takes longer than the call timeout to return, or never returns.\<close>

definition exceeds_timeout :: "CircuitBreaker \<Rightarrow> 'a operation \<Rightarrow> bool" where
  "exceeds_timeout cb fn =
     (case op_latency fn of None \<Rightarrow> True | Some d \<Rightarrow> sint (timeout cb) < int d)"

subsection \<open>Scenarios\<close>

text \<open>
  The services of the package's tests: one that always fails and one that never fails,
  both answering after 20 ms; beside them a service that answers after 3 s, and one
  that returns a value together with its error. Time is in nanoseconds.
\<close>

definition at_time :: "Time \<Rightarrow> env" where
  "at_time t = \<lparr> now = t, op_first = False \<rparr>"

definition alwaysFailing :: "string operation" where
  "alwaysFailing =
     \<lparr> op_res = None, op_err = Some (errors_New ''service failed''),
       op_latency = Some 20000000 \<rparr>"

definition neverFailing :: "string operation" where
  "neverFailing = \<lparr> op_res = Some ''OK'', op_err = None, op_latency = Some 20000000 \<rparr>"

definition tooSlow :: "string operation" where
  "tooSlow = \<lparr> op_res = Some ''OK'', op_err = None, op_latency = Some 3000000000 \<rparr>"

definition partialFailing :: "string operation" where
  "partialFailing =
     \<lparr> op_res = Some ''partial'', op_err = Some (errors_New ''service failed''),
       op_latency = Some 20000000 \<rparr>"

text \<open>
  \<open>NewCircuitBreaker(2, 2, 2s, 2s)\<close> as in \<open>TestCallNeverFailing\<close>, and two calls on
  it: a success, then a failure.
\<close>

definition healthy :: CircuitBreaker where
  "healthy = NewCircuitBreaker 2 2 2000000000 2000000000"

definition warmup :: "(env \<times> string operation) list" where
  "warmup = [(at_time 1000000000, neverFailing), (at_time 2000000000, alwaysFailing)]"

text \<open>
  \<open>NewCircuitBreaker(1, 2, 1s, 1s)\<close> through one recovery cycle and into the next:
  a failing call at 5 s, a call at 7 s, a successful call at 9 s, a failing call at 10 s.
\<close>

definition tripped :: CircuitBreaker where
  "tripped =
     calls (NewCircuitBreaker 1 2 1000000000 1000000000) [(at_time 5000000000, alwaysFailing)]"

definition probing :: CircuitBreaker where
  "probing = calls tripped [(at_time 7000000000, neverFailing)]"

definition recovered :: CircuitBreaker where
  "recovered = calls probing [(at_time 9000000000, neverFailing)]"

definition retripped :: CircuitBreaker where
  "retripped = calls recovered [(at_time 10000000000, alwaysFailing)]"

section \<open>Basic facts\<close>

lemmas scenario_defs = at_time_def alwaysFailing_def neverFailing_def tooSlow_def
  partialFailing_def

lemmas model_defs = NewCircuitBreaker_def Call_def processClosedState_def processOpenState_def
  processHalfOpenState_def resetCircuit_def runWithTimeout_def completes_def
  time_Since_def time_Sub_def maxDuration_def minDuration_def closed_def open_def halfOpen_def
  failed_def failures_def exceeds_timeout_def Let_def

lemma states_distinct:
  "closed \<noteq> open" "closed \<noteq> halfOpen" "open \<noteq> halfOpen"
  "open \<noteq> closed" "halfOpen \<noteq> closed" "halfOpen \<noteq> open"
  by (simp_all add: closed_def open_def halfOpen_def)

subsection \<open>Signed readings of 64-bit integers\<close>

lemma sint_bounds64: "- (2 ^ 63) \<le> sint (a::64 word) \<and> sint a < 2 ^ 63"
  using sint_ge [of a] sint_lt [of a] by simp

lemma sint_word_of_int64:
  "- (2 ^ 63) \<le> d \<Longrightarrow> d < 2 ^ 63 \<Longrightarrow> sint (word_of_int d :: 64 word) = d"
  by (simp add: sint_sbintrunc' signed_take_bit_int_eq_self)

text \<open>Counting up to a bound that is itself a Go \<open>int\<close> does not wrap.\<close>

lemma sint_add_nat:
  assumes "sint (a::64 word) + int n < sint (k::64 word)"
  shows "sint (a + of_nat n) = sint a + int n"
proof -
  have lo: "- (2 ^ 63) \<le> sint a + int n"
    using sint_bounds64 [of a] by linarith
  have hi: "sint a + int n < 2 ^ 63"
    using sint_bounds64 [of k] assms by linarith
  have "a + of_nat n = word_of_int (sint a + int n)"
    by simp
  then have "sint (a + of_nat n) = sint (word_of_int (sint a + int n) :: 64 word)"
    by (simp only:)
  also have "\<dots> = sint a + int n"
    using lo hi by (rule sint_word_of_int64)
  finally show ?thesis .
qed

text \<open>
  Inside the range of a \<open>Duration\<close> (about 292 years either way), \<open>time.Since\<close> is
  the plain difference of the two instants.
\<close>

lemma sint_time_Since:
  assumes "minDuration \<le> now e - t" and "now e - t \<le> maxDuration"
  shows "sint (time_Since e t) = now e - t"
proof -
  have "sint (word_of_int (now e - t) :: 64 word) = now e - t"
    using assms by (intro sint_word_of_int64) (simp_all add: minDuration_def maxDuration_def)
  then show ?thesis
    using assms by (simp add: time_Since_def time_Sub_def del: of_int_diff)
qed

subsection \<open>The dispatch of Call\<close>

lemma failed_iff_err: "failed cb e fn \<longleftrightarrow> err (runWithTimeout cb e fn) \<noteq> None"
  by (simp add: failed_def runWithTimeout_def)

lemma exceeds_not_completes: "exceeds_timeout cb fn \<Longrightarrow> \<not> completes cb e fn"
  by (auto simp: exceeds_timeout_def completes_def split: option.splits)

lemma Call_closed_ok:
  "state cb = closed \<Longrightarrow> \<not> failed cb e fn \<Longrightarrow>
   Call cb e fn = (cb, \<lparr> invoked = True, result = op_res fn, err = None \<rparr>)"
  by (simp add: Call_def processClosedState_def runWithTimeout_def failed_def Let_def)

lemma Call_closed_failed:
  "state cb = closed \<Longrightarrow> failed cb e fn \<Longrightarrow>
   Call cb e fn =
     ((if sint (failureThreshold cb) \<le> sint (failureCount cb + 1)
       then cb\<lparr> failureCount := failureCount cb + 1, lastFailureTime := now e, state := open \<rparr>
       else cb\<lparr> failureCount := failureCount cb + 1, lastFailureTime := now e \<rparr>),
      \<lparr> invoked = True, result = None, err = err (runWithTimeout cb e fn) \<rparr>)"
  by (simp add: Call_def processClosedState_def failed_iff_err Let_def runWithTimeout_def)

lemma Call_open:
  "state cb = open \<Longrightarrow> Call cb e fn = processOpenState cb e"
  by (simp add: Call_def states_distinct)

lemma Call_halfOpen:
  "state cb = halfOpen \<Longrightarrow> Call cb e fn = processHalfOpenState cb e fn"
  by (simp add: Call_def states_distinct)

text \<open>No path through \<open>Call\<close> assigns the timeout, the failure threshold or the recovery time.\<close>

lemma Call_config:
  "timeout (fst (Call cb e fn)) = timeout cb"
  "failureThreshold (fst (Call cb e fn)) = failureThreshold cb"
  "recoveryTime (fst (Call cb e fn)) = recoveryTime cb"
  by (simp_all add: Call_def processClosedState_def processOpenState_def
      processHalfOpenState_def resetCircuit_def Let_def)

lemma failed_cong: "timeout cb' = timeout cb \<Longrightarrow> failed cb' e fn = failed cb e fn"
  by (simp add: failed_def completes_def split: option.splits)

lemma failures_cong: "timeout cb' = timeout cb \<Longrightarrow> failures cb' cs = failures cb cs"
  by (simp add: failures_def failed_cong [of cb' cb])

subsection \<open>The scenarios, evaluated\<close>

lemma healthy_warmup_eq:
  "calls healthy warmup =
     \<lparr> state = closed, failureCount = 1, lastFailureTime = 2000000000, successCount = 0,
       failureThreshold = 2, recoveryTime = 2000000000, halfOpenThreshold = 2,
       timeout = 2000000000 \<rparr>"
  by (simp add: healthy_def warmup_def scenario_defs model_defs)

lemma tripped_eq:
  "tripped =
     \<lparr> state = open, failureCount = 1, lastFailureTime = 5000000000, successCount = 0,
       failureThreshold = 1, recoveryTime = 1000000000, halfOpenThreshold = 2,
       timeout = 1000000000 \<rparr>"
  by (simp add: tripped_def scenario_defs model_defs)

lemma probing_eq:
  "probing =
     \<lparr> state = halfOpen, failureCount = 0, lastFailureTime = 5000000000, successCount = 0,
       failureThreshold = 1, recoveryTime = 1000000000, halfOpenThreshold = 0,
       timeout = 1000000000 \<rparr>"
  by (simp add: probing_def tripped_eq at_time_def model_defs)

lemma recovered_eq:
  "recovered =
     \<lparr> state = closed, failureCount = 0, lastFailureTime = 5000000000, successCount = 1,
       failureThreshold = 1, recoveryTime = 1000000000, halfOpenThreshold = 0,
       timeout = 1000000000 \<rparr>"
  by (simp add: recovered_def probing_eq scenario_defs model_defs)

lemma retripped_eq:
  "retripped =
     \<lparr> state = open, failureCount = 1, lastFailureTime = 10000000000, successCount = 1,
       failureThreshold = 1, recoveryTime = 1000000000, halfOpenThreshold = 0,
       timeout = 1000000000 \<rparr>"
  by (simp add: retripped_def recovered_eq scenario_defs model_defs)

section \<open>The Open state\<close>

text \<open>
  C4. A call on a breaker in state Open, made when the time since the last failure is at
  most the recovery time, returns the error "open state; request blocked" and no result,
  does not start the operation, and leaves every field of the breaker as it was. The
  elapsed time is the \<open>Duration\<close> that \<open>time.Since\<close> computes.
\<close>

theorem open_within_recovery_rejects:
  assumes "state cb = open"
    and "sint (time_Since e (lastFailureTime cb)) \<le> sint (recoveryTime cb)"
  shows "Call cb e fn =
    (cb, \<lparr> invoked = False, result = None,
           err = Some (errors_New ''open state; request blocked'') \<rparr>)"
  using assms by (simp add: Call_open processOpenState_def)

theorem open_within_recovery_rejects_witness:
  "state tripped = open
   \<and> sint (time_Since (at_time 5500000000) (lastFailureTime tripped)) \<le> sint (recoveryTime tripped)
   \<and> Call tripped (at_time 5500000000) neverFailing =
       (tripped, \<lparr> invoked = False, result = None,
          err = Some (errors_New ''open state; request blocked'') \<rparr>)"
proof -
  have h1: "state tripped = open"
    by (simp add: tripped_eq)
  have h2: "sint (time_Since (at_time 5500000000) (lastFailureTime tripped))
      \<le> sint (recoveryTime tripped)"
    by (simp add: tripped_eq at_time_def time_Since_def time_Sub_def maxDuration_def
        minDuration_def)
  show ?thesis
    using h1 h2 open_within_recovery_rejects [OF h1 h2, of neverFailing] by simp
qed

text \<open>
  C5. A call on a breaker in state Open, made when the time since the last failure
  exceeds the recovery time, moves the breaker to HalfOpen, does not start the
  operation, and returns a nil result and a nil error. The next call finds the breaker
  in HalfOpen, so this is the first and only such call of an Open period.
\<close>

theorem open_after_recovery_half_opens:
  assumes "state cb = open"
    and "sint (recoveryTime cb) < sint (time_Since e (lastFailureTime cb))"
  shows "state (fst (Call cb e fn)) = halfOpen
       \<and> snd (Call cb e fn) = \<lparr> invoked = False, result = None, err = None \<rparr>"
  using assms by (simp add: Call_open processOpenState_def Let_def)

theorem open_after_recovery_half_opens_witness:
  "state tripped = open
   \<and> sint (recoveryTime tripped) < sint (time_Since (at_time 7000000000) (lastFailureTime tripped))
   \<and> state (fst (Call tripped (at_time 7000000000) neverFailing)) = halfOpen
   \<and> snd (Call tripped (at_time 7000000000) neverFailing) =
       \<lparr> invoked = False, result = None, err = None \<rparr>"
proof -
  have h1: "state tripped = open"
    by (simp add: tripped_eq)
  have h2: "sint (recoveryTime tripped)
      < sint (time_Since (at_time 7000000000) (lastFailureTime tripped))"
    by (simp add: tripped_eq at_time_def time_Since_def time_Sub_def maxDuration_def
        minDuration_def)
  show ?thesis
    using h1 h2 open_after_recovery_half_opens [OF h1 h2, of neverFailing] by simp
qed

text \<open>
  C1. Evaluation of the entry into HalfOpen. On \<open>NewCircuitBreaker(1, 2, 1s, 1s)\<close>,
  opened by a failure at 5 s, the call at 7 s moves the breaker to HalfOpen and sets
  \<open>failureCount\<close> to 0, and it sets \<open>halfOpenThreshold\<close>, configured as 2, to 0.
  \<open>successCount\<close> is not assigned: in the second Open period of the same breaker it
  is 1 before the call at 12 s and 1 after it.
\<close>

theorem halfOpen_entry_overwrites_threshold:
  "state tripped = open
   \<and> halfOpenThreshold tripped = 2
   \<and> sint (recoveryTime tripped) < sint (time_Since (at_time 7000000000) (lastFailureTime tripped))
   \<and> state (fst (Call tripped (at_time 7000000000) neverFailing)) = halfOpen
   \<and> failureCount (fst (Call tripped (at_time 7000000000) neverFailing)) = 0
   \<and> halfOpenThreshold (fst (Call tripped (at_time 7000000000) neverFailing)) = 0
   \<and> state retripped = open
   \<and> successCount retripped = 1
   \<and> sint (recoveryTime retripped)
        < sint (time_Since (at_time 12000000000) (lastFailureTime retripped))
   \<and> state (fst (Call retripped (at_time 12000000000) neverFailing)) = halfOpen
   \<and> successCount (fst (Call retripped (at_time 12000000000) neverFailing)) = 1"
  by (simp add: tripped_eq retripped_eq at_time_def model_defs)

section \<open>The HalfOpen state\<close>

text \<open>
  C2. Evaluation of the return to Closed. The same breaker, in HalfOpen after the call
  at 7 s, has \<open>successCount\<close> 0 and \<open>halfOpenThreshold\<close> 0. A successful call at 9 s
  raises \<open>successCount\<close> to the threshold and beyond: the breaker moves to Closed,
  \<open>failureCount\<close> is 0 and the call returns the operation's result, and
  \<open>successCount\<close> stays at 1, since \<open>resetCircuit\<close> assigns only \<open>failureCount\<close>
  and \<open>state\<close>.
\<close>

theorem halfOpen_close_keeps_successCount:
  "state probing = halfOpen
   \<and> successCount probing = 0
   \<and> halfOpenThreshold probing = 0
   \<and> completes probing (at_time 9000000000) neverFailing
   \<and> op_err neverFailing = None
   \<and> state (fst (Call probing (at_time 9000000000) neverFailing)) = closed
   \<and> failureCount (fst (Call probing (at_time 9000000000) neverFailing)) = 0
   \<and> successCount (fst (Call probing (at_time 9000000000) neverFailing)) = 1
   \<and> snd (Call probing (at_time 9000000000) neverFailing) =
        \<lparr> invoked = True, result = Some ''OK'', err = None \<rparr>"
  by (simp add: probing_eq scenario_defs model_defs)

text \<open>
  C7. A call on a breaker in state HalfOpen whose operation fails or times out moves the
  breaker to Open, sets \<open>lastFailureTime\<close> to the clock reading of the call, changes
  no other field, and returns a nil result with the error: the operation's own error
  when it completed, "request timed out" otherwise.
\<close>

theorem halfOpen_failure_reopens:
  assumes "state cb = halfOpen" and "failed cb e fn"
  shows "fst (Call cb e fn) = cb\<lparr> state := open, lastFailureTime := now e \<rparr>
       \<and> result (snd (Call cb e fn)) = None
       \<and> err (snd (Call cb e fn)) =
           (if completes cb e fn then op_err fn else Some (errors_New ''request timed out''))
       \<and> err (snd (Call cb e fn)) \<noteq> None"
  using assms
  by (auto simp add: Call_halfOpen processHalfOpenState_def failed_def runWithTimeout_def Let_def)

theorem halfOpen_failure_reopens_witness:
  "state probing = halfOpen
   \<and> failed probing (at_time 9000000000) partialFailing
   \<and> fst (Call probing (at_time 9000000000) partialFailing) =
       probing\<lparr> state := open, lastFailureTime := 9000000000 \<rparr>
   \<and> result (snd (Call probing (at_time 9000000000) partialFailing)) = None
   \<and> err (snd (Call probing (at_time 9000000000) partialFailing)) =
       Some (errors_New ''service failed'')"
proof -
  have h1: "state probing = halfOpen"
    by (simp add: probing_eq)
  have h2: "failed probing (at_time 9000000000) partialFailing"
    by (simp add: failed_def partialFailing_def)
  have c: "completes probing (at_time 9000000000) partialFailing"
    by (simp add: probing_eq completes_def partialFailing_def)
  have e: "op_err partialFailing = Some (errors_New ''service failed'')"
    by (simp add: partialFailing_def)
  have t: "now (at_time 9000000000) = 9000000000"
    by (simp add: at_time_def)
  show ?thesis
    using h1 h2 halfOpen_failure_reopens [OF h1 h2]
    by (simp add: c e t)
qed

section \<open>The Closed state\<close>

text \<open>
  C6. A call on a breaker in state Closed whose operation completes within the timeout
  and returns no error returns the operation's result and a nil error, and leaves the
  breaker as it was: \<open>failureCount\<close> keeps its value and the state stays Closed.
\<close>

theorem closed_success_keeps_failureCount:
  assumes "state cb = closed" and "completes cb e fn" and "op_err fn = None"
  shows "Call cb e fn = (cb, \<lparr> invoked = True, result = op_res fn, err = None \<rparr>)
       \<and> failureCount (fst (Call cb e fn)) = failureCount cb
       \<and> state (fst (Call cb e fn)) = closed"
  using assms by (simp add: Call_closed_ok failed_def)

theorem closed_success_keeps_failureCount_witness:
  "state (calls healthy warmup) = closed
   \<and> completes (calls healthy warmup) (at_time 3000000000) neverFailing
   \<and> op_err neverFailing = None
   \<and> failureCount (calls healthy warmup) = 1
   \<and> Call (calls healthy warmup) (at_time 3000000000) neverFailing =
       (calls healthy warmup, \<lparr> invoked = True, result = Some ''OK'', err = None \<rparr>)
   \<and> failureCount (fst (Call (calls healthy warmup) (at_time 3000000000) neverFailing)) = 1
   \<and> state (fst (Call (calls healthy warmup) (at_time 3000000000) neverFailing)) = closed"
proof -
  have h1: "state (calls healthy warmup) = closed"
    by (simp add: healthy_warmup_eq)
  have h2: "completes (calls healthy warmup) (at_time 3000000000) neverFailing"
    by (simp add: healthy_warmup_eq completes_def neverFailing_def)
  have h3: "op_err neverFailing = None"
    by (simp add: neverFailing_def)
  have r: "op_res neverFailing = Some ''OK''"
    by (simp add: neverFailing_def)
  have c: "failureCount (calls healthy warmup) = 1"
    by (simp add: healthy_warmup_eq)
  show ?thesis
    using h1 h2 h3 closed_success_keeps_failureCount [OF h1 h2 h3]
    by (simp add: r c)
qed

text \<open>
  While the failures counted so far stay below the threshold, a sequence of calls leaves
  the breaker Closed and \<open>failureCount\<close> has grown by the number of failing calls.
\<close>

lemma calls_closed_below:
  assumes "state cb = closed"
    and "sint (failureCount cb) + int (failures cb cs) < sint (failureThreshold cb)"
  shows "state (calls cb cs) = closed
       \<and> failureCount (calls cb cs) = failureCount cb + of_nat (failures cb cs)
       \<and> failureThreshold (calls cb cs) = failureThreshold cb
       \<and> timeout (calls cb cs) = timeout cb"
  using assms
proof (induction cs arbitrary: cb)
  case Nil
  then show ?case by (simp add: failures_def)
next
  case (Cons c cs)
  obtain e fn where c: "c = (e, fn)" by (cases c)
  let ?cb1 = "fst (Call cb e fn)"
  have cfg: "timeout ?cb1 = timeout cb" "failureThreshold ?cb1 = failureThreshold cb"
    by (simp_all add: Call_config)
  have fs: "failures ?cb1 cs = failures cb cs"
    using cfg(1) by (rule failures_cong)
  show ?case
  proof (cases "failed cb e fn")
    case False
    then have same: "?cb1 = cb"
      using Cons.prems(1) by (simp add: Call_closed_ok)
    have cnt: "failures cb (c # cs) = failures cb cs"
      using False by (simp add: failures_def c)
    show ?thesis
      using Cons.IH [of cb] Cons.prems cnt by (simp add: c same)
  next
    case True
    have cnt: "failures cb (c # cs) = Suc (failures cb cs)"
      using True by (simp add: failures_def c)
    have below: "sint (failureCount cb) + int 1 < sint (failureThreshold cb)"
      using Cons.prems(2) cnt by simp
    have inc: "sint (failureCount cb + 1) = sint (failureCount cb) + 1"
      using sint_add_nat [OF below] by simp
    have step: "?cb1 = cb\<lparr> failureCount := failureCount cb + 1, lastFailureTime := now e \<rparr>"
      using Cons.prems(1) True below inc by (simp add: Call_closed_failed)
    have st1: "state ?cb1 = closed"
      using Cons.prems(1) by (simp add: step)
    have fc1: "failureCount ?cb1 = failureCount cb + 1"
      by (simp add: step)
    have pre: "sint (failureCount ?cb1) + int (failures ?cb1 cs) < sint (failureThreshold ?cb1)"
      using Cons.prems(2) cnt inc by (simp add: fc1 fs cfg)
    have "state (calls ?cb1 cs) = closed
       \<and> failureCount (calls ?cb1 cs) = failureCount ?cb1 + of_nat (failures ?cb1 cs)
       \<and> failureThreshold (calls ?cb1 cs) = failureThreshold ?cb1
       \<and> timeout (calls ?cb1 cs) = timeout ?cb1"
      using st1 pre by (rule Cons.IH)
    then show ?thesis
      by (simp add: c fc1 fs cfg cnt [unfolded c])
  qed
qed

text \<open>
  C3. Take a breaker in state Closed with failure threshold \<open>k\<close>, and a sequence of
  calls, successful or failing in any order, whose failures keep the count below \<open>k\<close>.
  After the sequence the breaker is still Closed and \<open>failureCount\<close> has grown by one
  for each failing call. A further failing or timed-out call increments
  \<open>failureCount\<close> and sets \<open>lastFailureTime\<close> to the clock reading of that call; it
  moves the breaker to Open exactly when its increment brings the count to \<open>k\<close>, and
  leaves it Closed exactly when the count is still below \<open>k\<close>.
\<close>

theorem closed_opens_exactly_at_threshold:
  assumes "state cb = closed"
    and "sint (failureCount cb) + int (failures cb cs) < sint (failureThreshold cb)"
    and "failed cb e fn"
  shows "state (calls cb cs) = closed
       \<and> failureCount (calls cb cs) = failureCount cb + of_nat (failures cb cs)
       \<and> failureCount (fst (Call (calls cb cs) e fn)) = failureCount (calls cb cs) + 1
       \<and> lastFailureTime (fst (Call (calls cb cs) e fn)) = now e
       \<and> (state (fst (Call (calls cb cs) e fn)) = open \<longleftrightarrow>
            sint (failureCount cb) + int (failures cb cs) + 1 = sint (failureThreshold cb))
       \<and> (state (fst (Call (calls cb cs) e fn)) = closed \<longleftrightarrow>
            sint (failureCount cb) + int (failures cb cs) + 1 < sint (failureThreshold cb))"
proof -
  let ?c = "calls cb cs"
  have pre: "state ?c = closed"
    "failureCount ?c = failureCount cb + of_nat (failures cb cs)"
    "failureThreshold ?c = failureThreshold cb"
    "timeout ?c = timeout cb"
    using calls_closed_below [OF assms(1,2)] by simp_all
  have f: "failed ?c e fn"
    using assms(3) by (simp add: failed_cong [OF pre(4)])
  have cur: "sint (failureCount ?c) = sint (failureCount cb) + int (failures cb cs)"
    using sint_add_nat [OF assms(2)] by (simp add: pre(2))
  have lo: "- (2 ^ 63) \<le> sint (failureCount ?c) + 1"
    using sint_bounds64 [of "failureCount ?c"] by linarith
  have hi: "sint (failureCount ?c) + 1 < 2 ^ 63"
    using sint_bounds64 [of "failureThreshold cb"] assms(2) cur by linarith
  have "failureCount ?c + 1 = word_of_int (sint (failureCount ?c) + 1)"
    by simp
  then have "sint (failureCount ?c + 1) = sint (word_of_int (sint (failureCount ?c) + 1) :: 64 word)"
    by (simp only:)
  also have "\<dots> = sint (failureCount ?c) + 1"
    using lo hi by (rule sint_word_of_int64)
  finally have inc: "sint (failureCount ?c + 1) = sint (failureCount ?c) + 1" .
  have call: "fst (Call ?c e fn) =
     (if sint (failureThreshold ?c) \<le> sint (failureCount ?c + 1)
       then ?c\<lparr> failureCount := failureCount ?c + 1, lastFailureTime := now e, state := open \<rparr>
       else ?c\<lparr> failureCount := failureCount ?c + 1, lastFailureTime := now e \<rparr>)"
    using pre(1) f by (simp add: Call_closed_failed)
  have fc: "failureCount (fst (Call ?c e fn)) = failureCount ?c + 1"
    by (simp add: call)
  have lft: "lastFailureTime (fst (Call ?c e fn)) = now e"
    by (simp add: call)
  have st: "state (fst (Call ?c e fn)) =
      (if sint (failureThreshold cb) \<le> sint (failureCount cb) + int (failures cb cs) + 1
       then open else closed)"
    using pre(1) by (simp add: call inc cur pre(3))
  have le: "sint (failureCount cb) + int (failures cb cs) + 1 \<le> sint (failureThreshold cb)"
    using assms(2) by simp
  have op: "state (fst (Call ?c e fn)) = open \<longleftrightarrow>
      sint (failureCount cb) + int (failures cb cs) + 1 = sint (failureThreshold cb)"
    using le by (auto simp add: st states_distinct)
  have cl: "state (fst (Call ?c e fn)) = closed \<longleftrightarrow>
      sint (failureCount cb) + int (failures cb cs) + 1 < sint (failureThreshold cb)"
    using le by (auto simp add: st states_distinct)
  show ?thesis
    using pre(1,2) fc lft op cl by simp
qed

theorem closed_opens_exactly_at_threshold_witness:
  "state healthy = closed
   \<and> sint (failureCount healthy) + int (failures healthy warmup) < sint (failureThreshold healthy)
   \<and> failed healthy (at_time 3000000000) tooSlow
   \<and> state (calls healthy warmup) = closed
   \<and> failureCount (calls healthy warmup) = 1
   \<and> failureCount (fst (Call (calls healthy warmup) (at_time 3000000000) tooSlow)) = 2
   \<and> lastFailureTime (fst (Call (calls healthy warmup) (at_time 3000000000) tooSlow)) = 3000000000
   \<and> state (fst (Call (calls healthy warmup) (at_time 3000000000) tooSlow)) = open"
proof -
  have n: "failures healthy warmup = 1"
    by (simp add: healthy_def warmup_def scenario_defs model_defs)
  have cfg: "failureCount healthy = 0" "failureThreshold healthy = 2"
    by (simp_all add: healthy_def NewCircuitBreaker_def)
  have h1: "state healthy = closed"
    by (simp add: healthy_def NewCircuitBreaker_def)
  have h2: "sint (failureCount healthy) + int (failures healthy warmup)
      < sint (failureThreshold healthy)"
    by (simp add: n cfg)
  have h3: "failed healthy (at_time 3000000000) tooSlow"
    by (simp add: healthy_def scenario_defs model_defs)
  have t: "now (at_time 3000000000) = 3000000000"
    by (simp add: at_time_def)
  show ?thesis
    using h1 h3 closed_opens_exactly_at_threshold [OF h1 h2 h3]
    by (simp add: n cfg t)
qed

section \<open>Timeouts\<close>

text \<open>
  C8. A call on a breaker in state Closed or HalfOpen (the states that run the
  operation) whose operation takes longer than the call timeout, or never returns,
  returns the error "request timed out" and no result, and is booked as a failure. In
  Closed, \<open>failureCount\<close> is incremented, \<open>lastFailureTime\<close> is set to the clock
  reading of the call, and the breaker moves to Open when the incremented count reaches
  the failure threshold. In HalfOpen, the breaker moves to Open and \<open>lastFailureTime\<close>
  is set to the clock reading. No other field changes. A call at the same clock reading
  whose operation completes in time and returns an error leaves the same breaker.
\<close>

theorem timeout_counts_as_failure:
  assumes "state cb = closed \<or> state cb = halfOpen"
    and "exceeds_timeout cb fn"
    and "completes cb e fn'" and "op_err fn' \<noteq> None"
  shows "snd (Call cb e fn) =
           \<lparr> invoked = True, result = None, err = Some (errors_New ''request timed out'') \<rparr>
       \<and> fst (Call cb e fn) =
           (if state cb = closed then
              (if sint (failureThreshold cb) \<le> sint (failureCount cb + 1)
               then cb\<lparr> failureCount := failureCount cb + 1, lastFailureTime := now e,
                        state := open \<rparr>
               else cb\<lparr> failureCount := failureCount cb + 1, lastFailureTime := now e \<rparr>)
            else cb\<lparr> state := open, lastFailureTime := now e \<rparr>)
       \<and> fst (Call cb e fn') = fst (Call cb e fn)"
proof -
  have nc: "\<not> completes cb e fn"
    using assms(2) by (rule exceeds_not_completes)
  from assms(1) show ?thesis
  proof
    assume "state cb = closed"
    then show ?thesis
      using nc assms(3,4)
      by (auto simp add: Call_def processClosedState_def runWithTimeout_def Let_def)
  next
    assume "state cb = halfOpen"
    then show ?thesis
      using nc assms(3,4)
      by (auto simp add: Call_halfOpen processHalfOpenState_def runWithTimeout_def Let_def
          states_distinct)
  qed
qed

theorem timeout_counts_as_failure_witness:
  "(state probing = closed \<or> state probing = halfOpen)
   \<and> exceeds_timeout probing tooSlow
   \<and> completes probing (at_time 9000000000) alwaysFailing
   \<and> op_err alwaysFailing \<noteq> None
   \<and> snd (Call probing (at_time 9000000000) tooSlow) =
        \<lparr> invoked = True, result = None, err = Some (errors_New ''request timed out'') \<rparr>
   \<and> fst (Call probing (at_time 9000000000) tooSlow) =
        probing\<lparr> state := open, lastFailureTime := 9000000000 \<rparr>
   \<and> fst (Call probing (at_time 9000000000) alwaysFailing) =
        fst (Call probing (at_time 9000000000) tooSlow)
   \<and> (state (calls healthy warmup) = closed \<or> state (calls healthy warmup) = halfOpen)
   \<and> exceeds_timeout (calls healthy warmup) tooSlow
   \<and> completes (calls healthy warmup) (at_time 3000000000) alwaysFailing
   \<and> snd (Call (calls healthy warmup) (at_time 3000000000) tooSlow) =
        \<lparr> invoked = True, result = None, err = Some (errors_New ''request timed out'') \<rparr>
   \<and> fst (Call (calls healthy warmup) (at_time 3000000000) tooSlow) =
        (calls healthy warmup)\<lparr> failureCount := 2, lastFailureTime := 3000000000,
           state := open \<rparr>
   \<and> fst (Call (calls healthy warmup) (at_time 3000000000) alwaysFailing) =
        fst (Call (calls healthy warmup) (at_time 3000000000) tooSlow)"
proof -
  have h1: "state probing = closed \<or> state probing = halfOpen"
    by (simp add: probing_eq)
  have h2: "exceeds_timeout probing tooSlow"
    by (simp add: probing_eq exceeds_timeout_def tooSlow_def)
  have h3: "completes probing (at_time 9000000000) alwaysFailing"
    by (simp add: probing_eq completes_def alwaysFailing_def)
  have h4: "op_err alwaysFailing \<noteq> None"
    by (simp add: alwaysFailing_def)
  have s1: "state probing \<noteq> closed"
    by (simp add: probing_eq states_distinct)
  have t1: "now (at_time 9000000000) = 9000000000"
    by (simp add: at_time_def)
  have half: "snd (Call probing (at_time 9000000000) tooSlow) =
        \<lparr> invoked = True, result = None, err = Some (errors_New ''request timed out'') \<rparr>
      \<and> fst (Call probing (at_time 9000000000) tooSlow) =
        probing\<lparr> state := open, lastFailureTime := 9000000000 \<rparr>
      \<and> fst (Call probing (at_time 9000000000) alwaysFailing) =
        fst (Call probing (at_time 9000000000) tooSlow)"
    using timeout_counts_as_failure [OF h1 h2 h3 h4] by (simp add: s1 t1)
  have g1: "state (calls healthy warmup) = closed \<or> state (calls healthy warmup) = halfOpen"
    by (simp add: healthy_warmup_eq)
  have g2: "exceeds_timeout (calls healthy warmup) tooSlow"
    by (simp add: healthy_warmup_eq exceeds_timeout_def tooSlow_def)
  have g3: "completes (calls healthy warmup) (at_time 3000000000) alwaysFailing"
    by (simp add: healthy_warmup_eq completes_def alwaysFailing_def)
  have s2: "state (calls healthy warmup) = closed"
    by (simp add: healthy_warmup_eq)
  have c2: "failureCount (calls healthy warmup) = 1" "failureThreshold (calls healthy warmup) = 2"
    by (simp_all add: healthy_warmup_eq)
  have t2: "now (at_time 3000000000) = 3000000000"
    by (simp add: at_time_def)
  have clos: "snd (Call (calls healthy warmup) (at_time 3000000000) tooSlow) =
        \<lparr> invoked = True, result = None, err = Some (errors_New ''request timed out'') \<rparr>
      \<and> fst (Call (calls healthy warmup) (at_time 3000000000) tooSlow) =
        (calls healthy warmup)\<lparr> failureCount := 2, lastFailureTime := 3000000000,
           state := open \<rparr>
      \<and> fst (Call (calls healthy warmup) (at_time 3000000000) alwaysFailing) =
        fst (Call (calls healthy warmup) (at_time 3000000000) tooSlow)"
    using timeout_counts_as_failure [OF g1 g2 g3 h4] by (simp add: s2 c2 t2)
  show ?thesis
    using h1 h2 h3 h4 half g1 g2 g3 clos by simp
qed

section \<open>Every call\<close>

lemma Call_state_known:
  "state cb \<in> {closed, open, halfOpen} \<Longrightarrow>
   state (fst (Call cb e fn)) \<in> {closed, open, halfOpen}"
  by (auto simp: Call_def processClosedState_def processOpenState_def
      processHalfOpenState_def resetCircuit_def Let_def)

lemma calls_state_known:
  "state cb \<in> {closed, open, halfOpen} \<Longrightarrow> state (calls cb cs) \<in> {closed, open, halfOpen}"
proof (induction cs arbitrary: cb)
  case Nil
  then show ?case by simp
next
  case (Cons c cs)
  obtain e fn where c: "c = (e, fn)" by (cases c)
  have "state (fst (Call cb e fn)) \<in> {closed, open, halfOpen}"
    using Cons.prems by (rule Call_state_known)
  then show ?case
    unfolding c calls.simps by (rule Cons.IH)
qed

text \<open>
  C9. After any sequence of calls on a breaker made by \<open>NewCircuitBreaker\<close>, whatever
  its four parameters, the state is Closed, Open or HalfOpen, and the next call is
  answered by one of the three state handlers: the default branch of \<open>Call\<close>, which
  reports an unknown state, is not taken.
\<close>

theorem reachable_state_known:
  "state (calls (NewCircuitBreaker k h r t) cs) \<in> {closed, open, halfOpen}
   \<and> Call (calls (NewCircuitBreaker k h r t) cs) e fn \<in>
       {processClosedState (calls (NewCircuitBreaker k h r t) cs) e fn,
        processOpenState (calls (NewCircuitBreaker k h r t) cs) e,
        processHalfOpenState (calls (NewCircuitBreaker k h r t) cs) e fn}"
proof -
  have "state (NewCircuitBreaker k h r t) \<in> {closed, open, halfOpen}"
    by (simp add: NewCircuitBreaker_def)
  then have "state (calls (NewCircuitBreaker k h r t) cs) \<in> {closed, open, halfOpen}"
    by (rule calls_state_known)
  then show ?thesis
    by (auto simp add: Call_def)
qed

text \<open>
  C10. Whatever the state of the breaker (one of the three or any other string) and
  whatever the operation returns, a call that returns a non-nil error returns a nil
  result, also when the operation returned a value together with its error.
\<close>

theorem Call_error_excludes_result:
  "err (snd (Call cb e fn)) \<noteq> None \<Longrightarrow> result (snd (Call cb e fn)) = None"
  by (auto simp add: Call_def processClosedState_def processOpenState_def
      processHalfOpenState_def Let_def split: if_splits)

theorem Call_error_excludes_result_witness:
  "op_res partialFailing = Some ''partial''
   \<and> err (snd (Call healthy (at_time 1000000000) partialFailing)) \<noteq> None
   \<and> result (snd (Call healthy (at_time 1000000000) partialFailing)) = None"
proof -
  have h: "err (snd (Call healthy (at_time 1000000000) partialFailing)) \<noteq> None"
    by (simp add: healthy_def scenario_defs model_defs)
  have r: "op_res partialFailing = Some ''partial''"
    by (simp add: partialFailing_def)
  show ?thesis
    using h r Call_error_excludes_result [OF h] by simp
qed

end
